theory Spec2Isabelle
  imports Main
begin

section \<open>wp-pa11y: a shallow embedding of \<open>src/wp-pa11y.js\<close>\<close>

text \<open>
  The script reads its configuration, fetches every configured sitemap, and audits the
  pages of each one in a headless browser. The embedding follows the first program of
  the source file (lines 1 to 267), function by function and under the names of the
  source. The second program of the file (from line 268) is an earlier variant of the
  same script; where it differs on a point stated below, the text says so.

  The libraries the script calls (the URL parser, \<open>path\<close>, \<open>fs\<close>, \<open>node-fetch\<close>,
  \<open>xml2js\<close>, \<open>cosmiconfig\<close>, \<open>puppeteer\<close>, \<open>pa11y\<close> and its reporters, the clock) are
  not part of the repository. Their answers are the fields of an environment record;
  every call that can throw or reject answers with an error value. What the script does
  to the outside world is recorded as a list of events, in program order.
\<close>

subsection \<open>JavaScript strings\<close>

text \<open>
  A string is a list of code units; the model covers the code units below 256
  (\<open>char\<close>). \<open>isSpace\<close> is the class \<open>\s\<close> of a regular expression, which is also
  what \<open>trim\<close> removes (tab, line feed, vertical tab, form feed, carriage return, space,
  no-break space); \<open>isWord\<close> is the class \<open>\w\<close>.
\<close>

definition code :: "char \<Rightarrow> nat" where
  "code c = of_char c"

definition isSpace :: "char \<Rightarrow> bool" where
  "isSpace c = ((9 \<le> code c \<and> code c \<le> 13) \<or> code c = 32 \<or> code c = 160)"

definition isWord :: "char \<Rightarrow> bool" where
  "isWord c = ((48 \<le> code c \<and> code c \<le> 57) \<or> (65 \<le> code c \<and> code c \<le> 90)
                \<or> code c = 95 \<or> (97 \<le> code c \<and> code c \<le> 122))"

text \<open>\<open>toLowerCase\<close>: the letters A to Z, and the capital letters of Latin-1 (192 to 222
  but the multiplication sign 215), move up by 32.\<close>

definition lowerChar :: "char \<Rightarrow> char" where
  "lowerChar c =
     (if (65 \<le> code c \<and> code c \<le> 90) \<or> (192 \<le> code c \<and> code c \<le> 222 \<and> code c \<noteq> 215)
      then char_of (code c + 32) else c)"

definition toLowerCase :: "string \<Rightarrow> string" where
  "toLowerCase s = map lowerChar s"

definition trim :: "string \<Rightarrow> string" where
  "trim s = rev (dropWhile isSpace (rev (dropWhile isSpace s)))"

text \<open>\<open>s.replace(pat, rep)\<close> with a string pattern replaces the first occurrence only.\<close>

fun isPrefix :: "string \<Rightarrow> string \<Rightarrow> bool" where
  "isPrefix [] s = True"
| "isPrefix (p # ps) [] = False"
| "isPrefix (p # ps) (c # cs) = (p = c \<and> isPrefix ps cs)"

fun replaceFirst :: "string \<Rightarrow> string \<Rightarrow> string \<Rightarrow> string" where
  "replaceFirst pat rep [] = (if pat = [] then rep else [])"
| "replaceFirst pat rep (c # cs) =
     (if isPrefix pat (c # cs) then rep @ drop (length pat) (c # cs)
      else c # replaceFirst pat rep cs)"

text \<open>\<open>s.replace(/[\s_-]+/g, '-')\<close>: every maximal run of separators becomes one hyphen.\<close>

definition isSep :: "char \<Rightarrow> bool" where
  "isSep c = (isSpace c \<or> c = CHR ''_'' \<or> c = CHR ''-'')"

function collapseSeps :: "string \<Rightarrow> string" where
  "collapseSeps [] = []"
| "collapseSeps (c # cs) =
     (if isSep c then CHR ''-'' # collapseSeps (dropWhile isSep cs) else c # collapseSeps cs)"
  by pat_completeness auto
termination
  by (relation "measure length") (auto simp: less_Suc_eq_le length_dropWhile_le)

text \<open>\<open>s.replace(/^-+|-+$/g, '')\<close>: the hyphens at the start and at the end go.\<close>

definition isHyphen :: "char \<Rightarrow> bool" where
  "isHyphen c = (c = CHR ''-'')"

definition trimHyphens :: "string \<Rightarrow> string" where
  "trimHyphens s = rev (dropWhile isHyphen (rev (dropWhile isHyphen s)))"

text \<open>A number in a template literal: its decimal numeral.\<close>

definition digitChar :: "nat \<Rightarrow> char" where
  "digitChar d = char_of (48 + d)"

function decimal :: "nat \<Rightarrow> string" where
  "decimal n = (if n < 10 then [digitChar n] else decimal (n div 10) @ [digitChar (n mod 10)])"
  by pat_completeness auto
termination
  by (relation "measure id") auto

declare decimal.simps [simp del]

fun joinWith :: "string \<Rightarrow> string list \<Rightarrow> string" where
  "joinWith sep [] = []"
| "joinWith sep [s] = s"
| "joinWith sep (s # t # ss) = s @ sep @ joinWith sep (t # ss)"

subsection \<open>getFileName (lines 253 to 267)\<close>

text \<open>\<open>new Date()\<close> is read through \<open>getFullYear\<close>, \<open>getMonth\<close> (0 to 11) and \<open>getDate\<close>
  (1 to 31); the date is an argument of the model.\<close>

record jsdate =
  getFullYear :: nat
  getMonth :: nat
  getDate :: nat

definition fileSlug :: "string \<Rightarrow> string" where
  "fileSlug url =
     replaceFirst ''httpswww'' ''''
       (trimHyphens
         (collapseSeps
           (filter (\<lambda>c. isWord c \<or> isSpace c \<or> c = CHR ''-'')
             (trim (toLowerCase url)))))"

definition getFileName :: "jsdate \<Rightarrow> string \<Rightarrow> string" where
  "getFileName dt url =
     decimal (getFullYear dt) @ ''-'' @ decimal (getMonth dt + 1) @ ''-'' @ decimal (getDate dt)
       @ ''-'' @ fileSlug url @ ''.html''"

text \<open>The characters \<open>[a-z0-9-]\<close>.\<close>

definition slugChar :: "char \<Rightarrow> bool" where
  "slugChar c =
     ((97 \<le> code c \<and> code c \<le> 122) \<or> (48 \<le> code c \<and> code c \<le> 57) \<or> c = CHR ''-'')"

subsection \<open>JavaScript values\<close>

text \<open>
  The values a configuration file and a parsed XML document are made of. Numbers are
  integers. An object is the list of its properties, and \<open>lookup\<close> reads one by name
  (\<open>undefined\<close> when there is none).
\<close>

datatype jsval =
    JUndefined
  | JNull
  | JBool bool
  | JNum int
  | JStr string
  | JArr "jsval list"
  | JObj "(string \<times> jsval) list"

datatype js_error = TypeError string | Failure string

text \<open>\<open>error.message\<close>. The message of a \<open>TypeError\<close> is the engine's text; the model
  names the property that was read.\<close>

fun message :: "js_error \<Rightarrow> string" where
  "message (TypeError m) = m"
| "message (Failure m) = m"

definition andThen :: "'e + 'a \<Rightarrow> ('a \<Rightarrow> 'e + 'b) \<Rightarrow> 'e + 'b" where
  "andThen r f = (case r of Inl e \<Rightarrow> Inl e | Inr v \<Rightarrow> f v)"

fun lookup :: "(string \<times> jsval) list \<Rightarrow> string \<Rightarrow> jsval" where
  "lookup [] k = JUndefined"
| "lookup ((k', v) # kvs) k = (if k' = k then v else lookup kvs k)"

text \<open>\<open>a || b\<close> goes by the truth value of \<open>a\<close>.\<close>

fun truthy :: "jsval \<Rightarrow> bool" where
  "truthy JUndefined = False"
| "truthy JNull = False"
| "truthy (JBool b) = b"
| "truthy (JNum n) = (n \<noteq> 0)"
| "truthy (JStr s) = (s \<noteq> [])"
| "truthy (JArr xs) = True"
| "truthy (JObj kvs) = True"

definition orElse :: "jsval \<Rightarrow> jsval \<Rightarrow> jsval" where
  "orElse a b = (if truthy a then a else b)"

text \<open>
  \<open>v.k\<close> and \<open>v[i]\<close>. Reading a property of \<open>undefined\<close> or \<open>null\<close> throws. Arrays and
  strings have a \<open>length\<close>; no other data property of theirs is read by the script.
\<close>

fun getProp :: "jsval \<Rightarrow> string \<Rightarrow> js_error + jsval" where
  "getProp JUndefined k = Inl (TypeError (''Cannot read properties of undefined (reading '' @ k @ '')''))"
| "getProp JNull k = Inl (TypeError (''Cannot read properties of null (reading '' @ k @ '')''))"
| "getProp (JObj kvs) k = Inr (lookup kvs k)"
| "getProp (JArr xs) k = Inr (if k = ''length'' then JNum (int (length xs)) else JUndefined)"
| "getProp (JStr s) k = Inr (if k = ''length'' then JNum (int (length s)) else JUndefined)"
| "getProp (JBool b) k = Inr JUndefined"
| "getProp (JNum n) k = Inr JUndefined"

fun getIndex :: "jsval \<Rightarrow> nat \<Rightarrow> js_error + jsval" where
  "getIndex JUndefined i = Inl (TypeError (''Cannot read properties of undefined (reading '' @ decimal i @ '')''))"
| "getIndex JNull i = Inl (TypeError (''Cannot read properties of null (reading '' @ decimal i @ '')''))"
| "getIndex (JObj kvs) i = Inr (lookup kvs (decimal i))"
| "getIndex (JArr xs) i = Inr (if i < length xs then xs ! i else JUndefined)"
| "getIndex (JStr s) i = Inr (if i < length s then JStr [s ! i] else JUndefined)"
| "getIndex (JBool b) i = Inr JUndefined"
| "getIndex (JNum n) i = Inr JUndefined"

text \<open>
  \<open>v.map(f)\<close>: the callback runs on the elements in order, and its first exception ends
  the call. Only an array has a \<open>map\<close>.
\<close>

fun mapResult :: "('a \<Rightarrow> 'e + 'b) \<Rightarrow> 'a list \<Rightarrow> 'e + 'b list" where
  "mapResult f [] = Inr []"
| "mapResult f (x # xs) =
     (case f x of
        Inl e \<Rightarrow> Inl e
      | Inr y \<Rightarrow> (case mapResult f xs of Inl e \<Rightarrow> Inl e | Inr ys \<Rightarrow> Inr (y # ys)))"

fun arrayMap :: "jsval \<Rightarrow> (jsval \<Rightarrow> js_error + 'b) \<Rightarrow> js_error + 'b list" where
  "arrayMap (JArr xs) f = mapResult f xs"
| "arrayMap JUndefined f = Inl (TypeError ''Cannot read properties of undefined (reading map)'')"
| "arrayMap JNull f = Inl (TypeError ''Cannot read properties of null (reading map)'')"
| "arrayMap v f = Inl (TypeError ''map is not a function'')"

text \<open>
  \<open>a.toString()\<close>. \<open>toStr\<close> is the string of a value that has one: an array joins the
  strings of its elements with commas, \<open>undefined\<close> and \<open>null\<close> counting as empty. The
  method call throws on \<open>undefined\<close> and \<open>null\<close>, and on an object whose own
  \<open>toString\<close> property is data.
\<close>

fun isNullish :: "jsval \<Rightarrow> bool" where
  "isNullish JUndefined = True"
| "isNullish JNull = True"
| "isNullish v = False"

fun toStr :: "jsval \<Rightarrow> string" where
  "toStr JUndefined = ''undefined''"
| "toStr JNull = ''null''"
| "toStr (JBool b) = (if b then ''true'' else ''false'')"
| "toStr (JNum n) = (if n < 0 then ''-'' @ decimal (nat (- n)) else decimal (nat n))"
| "toStr (JStr s) = s"
| "toStr (JArr xs) = joinWith '','' (map (\<lambda>x. if isNullish x then [] else toStr x) xs)"
| "toStr (JObj kvs) = ''[object Object]''"

fun toStringMethod :: "jsval \<Rightarrow> js_error + string" where
  "toStringMethod JUndefined = Inl (TypeError ''Cannot read properties of undefined (reading toString)'')"
| "toStringMethod JNull = Inl (TypeError ''Cannot read properties of null (reading toString)'')"
| "toStringMethod (JObj kvs) =
     (if lookup kvs ''toString'' = JUndefined then Inr (toStr (JObj kvs))
      else Inl (TypeError ''toString is not a function''))"
| "toStringMethod v = Inr (toStr v)"

text \<open>\<open>Array.from(new Set(xs))\<close>: the elements in the order of their first occurrence.\<close>

fun addAll :: "'a list \<Rightarrow> 'a list \<Rightarrow> 'a list" where
  "addAll seen [] = seen"
| "addAll seen (x # xs) = (if x \<in> set seen then addAll seen xs else addAll (seen @ [x]) xs)"

definition arrayFromSet :: "'a list \<Rightarrow> 'a list" where
  "arrayFromSet xs = addAll [] xs"

text \<open>Object spread \<open>{ ...a, ...b }\<close>: the own properties of \<open>b\<close> are assigned to a copy
  of \<open>a\<close>, in order.\<close>

fun setProp :: "(string \<times> jsval) list \<Rightarrow> string \<Rightarrow> jsval \<Rightarrow> (string \<times> jsval) list" where
  "setProp [] k v = [(k, v)]"
| "setProp ((k', v') # kvs) k v =
     (if k' = k then (k, v) # kvs else (k', v') # setProp kvs k v)"

definition spread :: "(string \<times> jsval) list \<Rightarrow> (string \<times> jsval) list \<Rightarrow> (string \<times> jsval) list" where
  "spread obj props = foldl (\<lambda>acc kv. setProp acc (fst kv) (snd kv)) obj props"

fun ownProps :: "jsval \<Rightarrow> (string \<times> jsval) list" where
  "ownProps (JObj kvs) = kvs"
| "ownProps (JArr xs) = zip (map decimal [0..<length xs]) xs"
| "ownProps (JStr s) = zip (map decimal [0..<length s]) (map (\<lambda>c. JStr [c]) s)"
| "ownProps v = []"

subsection \<open>The outside world\<close>

text \<open>
  An event is an effect that took place: a line on standard output or standard error,
  the help text, a directory made, a request sent, a file written, and the calls to the
  browser and the progress bar.
\<close>

datatype event =
    Stdout string
  | Stderr string
  | HelpText
  | MkdirSync string
  | HttpGet string
  | Launch
  | BarStart nat
  | BarIncrement
  | BarStop
  | NewPage nat
  | Pa11y jsval nat
  | WriteFileSync string string
  | PageClose nat
  | BrowserClose

text \<open>
  The answers of the libraries. \<open>configFile\<close> is \<open>cosmic.config\<close> of the file
  \<open>cosmiconfig\<close> finds, if it finds one. \<open>fetchText\<close> is \<open>fetch\<close> followed by
  \<open>response.text()\<close>, and \<open>parseString\<close> is \<open>parseStringPromise\<close>. \<open>newPage\<close> answers the
  \<open>i\<close>-th call of \<open>browser.newPage()\<close> with a page, and \<open>now\<close> is the clock at the
  \<open>i\<close>-th file name.

  The three reporters the script imports: \<open>reporterHtml\<close> is the text
  \<open>pa11yReporterHtml.results\<close> returns, the report of a page. \<open>reporterJson\<close> is the text
  \<open>pa11yReporterJson.results\<close> writes to standard output when it is called, the issues
  of the result as a JSON array. \<open>reporterCli\<close> is the text of \<open>pa11yReporterCli.results\<close>,
  the reporter of pa11y for people to read; the first program imports it (line 20) and
  calls it nowhere.
\<close>

record 'r env =
  cwd :: string
  pathResolve :: "string list \<Rightarrow> string"
  configFile :: "jsval option"
  urlHostname :: "string \<Rightarrow> js_error + string"
  mkdirSync :: "string \<Rightarrow> js_error option"
  fetchText :: "string \<Rightarrow> js_error + string"
  parseString :: "string \<Rightarrow> js_error + jsval"
  launch :: "js_error option"
  newPage :: "nat \<Rightarrow> js_error + nat"
  pa11y :: "jsval \<Rightarrow> nat \<Rightarrow> (string \<times> jsval) list \<Rightarrow> js_error + 'r"
  reporterHtml :: "'r \<Rightarrow> js_error + string"
  reporterJson :: "'r \<Rightarrow> string"
  reporterCli :: "'r \<Rightarrow> string"
  now :: "nat \<Rightarrow> jsdate"
  writeFileSync :: "string \<Rightarrow> string \<Rightarrow> js_error option"
  pageClose :: "nat \<Rightarrow> js_error option"
  browserClose :: "js_error option"

text \<open>\<open>ok\<close> and \<open>error\<close> print through \<open>console.log\<close>; the colours are left out.\<close>

definition ok :: "string \<Rightarrow> event" where
  "ok str = Stdout (''(*) '' @ str)"

definition error :: "string \<Rightarrow> event" where
  "error str = Stdout (''(!) '' @ str)"

definition outputDir :: "'r env \<Rightarrow> string" where
  "outputDir E = pathResolve E [cwd E, ''output'']"

subsection \<open>Configuration (lines 44 to 127)\<close>

definition defaultConfig :: "(string \<times> jsval) list" where
  "defaultConfig =
     [(''sitemaps'', JArr []),
      (''standard'', JStr ''WCAG2AA''),
      (''actions'', JArr []),
      (''reporter'', JStr ''html''),
      (''includeNotices'', JBool False),
      (''method'', JStr ''GET''),
      (''runners'', JArr [JStr ''axe'', JStr ''htmlcs'']),
      (''viewport'', JObj [(''width'', JNum 1280), (''height'', JNum 1024)])]"

text \<open>
  \<open>opts.sitemaps\<close> as \<open>commander\<close> leaves it for \<open>-s, --sitemaps [sitemap urls...]\<close>:
  \<open>undefined\<close>, \<open>true\<close> for the flag with no value, or the array of the values.
  \<open>opts.reporter\<close> and \<open>opts.destination\<close> are parsed as well; the script reads neither.
\<close>

datatype cliSitemaps = NotGiven | FlagOnly | Given "string list"

record opts =
  reporter :: string
  destination :: "string option"
  sitemaps :: cliSitemaps

text \<open>\<open>typeof opts.sitemaps !== 'undefined' && opts.sitemaps.length || 0\<close> and
  \<open>opts.sitemaps || []\<close>.\<close>

fun sitemapAmount :: "cliSitemaps \<Rightarrow> nat" where
  "sitemapAmount NotGiven = 0"
| "sitemapAmount FlagOnly = 0"
| "sitemapAmount (Given urls) = length urls"

fun sitemapsOrEmpty :: "cliSitemaps \<Rightarrow> jsval" where
  "sitemapsOrEmpty NotGiven = JArr []"
| "sitemapsOrEmpty FlagOnly = JBool True"
| "sitemapsOrEmpty (Given urls) = JArr (map JStr urls)"

text \<open>
  \<open>loadedConfig\<close> starts from the sitemaps of the command line; the properties of the
  configuration file are spread over it, and the result over \<open>defaultConfig\<close>.
\<close>

definition loadedConfig :: "jsval option \<Rightarrow> opts \<Rightarrow> (string \<times> jsval) list" where
  "loadedConfig searchedFor os =
     (case searchedFor of
        None \<Rightarrow> [(''sitemaps'', sitemapsOrEmpty (sitemaps os))]
      | Some cosmic \<Rightarrow>
          spread [(''sitemaps'', sitemapsOrEmpty (sitemaps os))] (ownProps (orElse cosmic (JObj []))))"

definition config :: "jsval option \<Rightarrow> opts \<Rightarrow> (string \<times> jsval) list" where
  "config searchedFor os = spread defaultConfig (loadedConfig searchedFor os)"

text \<open>
  Lines 113 to 119: \<open>.map( ( a ) => a.toString().trim() ).filter( ( a ) => a.length )\<close>
  and \<open>Array.from( new Set( ... ) )\<close>.
\<close>

definition trimmedString :: "jsval \<Rightarrow> js_error + string" where
  "trimmedString a = andThen (toStringMethod a) (\<lambda>s. Inr (trim s))"

definition normaliseSitemaps :: "jsval \<Rightarrow> js_error + string list" where
  "normaliseSitemaps v =
     andThen (arrayMap v trimmedString)
       (\<lambda>strs. Inr (arrayFromSet (filter (\<lambda>a. a \<noteq> []) strs)))"

text \<open>
  The start of the run, up to \<open>config.sitemaps.forEach\<close>: the process exits (after the
  help text, or with no sitemap left), dies of an exception no one catches, or is ready
  with its configuration and the list of sitemaps.
\<close>

datatype startup =
    Exited nat "event list"
  | Crashed js_error "event list"
  | Ready "(string \<times> jsval) list" "string list" "event list"

definition resolveConfig :: "jsval option \<Rightarrow> opts \<Rightarrow> startup" where
  "resolveConfig searchedFor os =
     (if sitemapAmount (sitemaps os) < 1 \<and> searchedFor = None
      then Exited 0
             [error ''Could not find configuration. Please check docs and try again.'', HelpText]
      else
        (case normaliseSitemaps (lookup (config searchedFor os) ''sitemaps'') of
           Inl e \<Rightarrow> Crashed e []
         | Inr urls \<Rightarrow>
             if urls = [] then Exited 0 [Stderr ''No sitemaps to process. Exiting.'']
             else Ready (setProp (config searchedFor os) ''sitemaps'' (JArr (map JStr urls))) urls
                    [Stdout (''Running Pa11y for:  '' @ joinWith '', '' urls)]))"

subsection \<open>getUrls (lines 158 to 174)\<close>

definition locOf :: "jsval \<Rightarrow> js_error + jsval" where
  "locOf link = andThen (getProp link ''loc'') (\<lambda>loc. getIndex loc 0)"

definition urlsOf :: "jsval \<Rightarrow> js_error + jsval list" where
  "urlsOf data =
     andThen (getProp data ''urlset'') (\<lambda>urlset.
     andThen (getProp urlset ''url'') (\<lambda>url.
     andThen (getProp url ''length'') (\<lambda>len.
       if truthy len then arrayMap url locOf else Inr [])))"

definition getUrls :: "'r env \<Rightarrow> string \<Rightarrow> js_error + jsval list" where
  "getUrls E url =
     andThen (fetchText E url) (\<lambda>content.
     andThen (parseString E content) urlsOf)"

subsection \<open>runPa11y (lines 183 to 245)\<close>

definition isHtml :: "(string \<times> jsval) list \<Rightarrow> bool" where
  "isHtml cfg = (lookup cfg ''reporter'' = JStr ''html'')"

fun fileNameOf :: "jsdate \<Rightarrow> jsval \<Rightarrow> js_error + string" where
  "fileNameOf dt (JStr url) = Inr (getFileName dt url)"
| "fileNameOf dt JUndefined = Inl (TypeError ''Cannot read properties of undefined (reading toLowerCase)'')"
| "fileNameOf dt JNull = Inl (TypeError ''Cannot read properties of null (reading toLowerCase)'')"
| "fileNameOf dt v = Inl (TypeError ''url.toLowerCase is not a function'')"

definition writeResultsHtml ::
  "'r env \<Rightarrow> 'r \<Rightarrow> nat \<Rightarrow> jsval \<Rightarrow> string \<Rightarrow> js_error option \<times> event list" where
  "writeResultsHtml E result i url folderName =
     (case reporterHtml E result of
        Inl e \<Rightarrow> (Some e, [])
      | Inr htmlResults \<Rightarrow>
          (case fileNameOf (now E i) url of
             Inl e \<Rightarrow> (Some e, [])
           | Inr fileName \<Rightarrow>
               (case writeFileSync E (pathResolve E [outputDir E, folderName, fileName]) htmlResults of
                  Some e \<Rightarrow> (Some e, [])
                | None \<Rightarrow>
                    (None,
                     [WriteFileSync (pathResolve E [outputDir E, folderName, fileName]) htmlResults]))))"

text \<open>
  The loop of \<open>runPa11y\<close>, on the URLs from index \<open>i\<close> on. It answers with the error that
  ended it, if any, the pages it opened, and its events. In the branch of the other
  reporters, \<open>pa11yReporterJson.results( results[ i ] )\<close> is called for its effect, the
  JSON text on standard output; the model records the line at the call.
\<close>

fun auditPages ::
  "'r env \<Rightarrow> (string \<times> jsval) list \<Rightarrow> string \<Rightarrow> nat \<Rightarrow> jsval list
     \<Rightarrow> js_error option \<times> nat list \<times> event list" where
  "auditPages E cfg folderName i [] = (None, [], [])"
| "auditPages E cfg folderName i (url # rest) =
     (case newPage E i of
        Inl e \<Rightarrow> (Some e, [], [BarIncrement])
      | Inr page \<Rightarrow>
          (case pa11y E url page cfg of
             Inl e \<Rightarrow> (Some e, [page], [BarIncrement, NewPage page])
           | Inr result \<Rightarrow>
               (case (if isHtml cfg then writeResultsHtml E result i url folderName
                      else (None, [Stdout (reporterJson E result)])) of
                  (Some e, written) \<Rightarrow>
                    (Some e, [page], [BarIncrement, NewPage page, Pa11y url page] @ written)
                | (None, written) \<Rightarrow>
                    (case auditPages E cfg folderName (Suc i) rest of
                       (failure, pages, evs) \<Rightarrow>
                         (failure, page # pages,
                          [BarIncrement, NewPage page, Pa11y url page] @ written @ evs)))))"

fun closePages :: "'r env \<Rightarrow> nat list \<Rightarrow> js_error option \<times> event list" where
  "closePages E [] = (None, [])"
| "closePages E (page # pages) =
     (case pageClose E page of
        Some e \<Rightarrow> (Some e, [])
      | None \<Rightarrow> (case closePages E pages of (failure, evs) \<Rightarrow> (failure, PageClose page # evs)))"

text \<open>
  The \<open>try\<close> block and its \<open>catch\<close>. The answer \<open>None\<close> says that the block ran to its
  end; \<open>Some e\<close> is the error that was caught.
\<close>

definition tryBlock ::
  "'r env \<Rightarrow> (string \<times> jsval) list \<Rightarrow> string \<Rightarrow> jsval list \<Rightarrow> js_error option \<times> event list" where
  "tryBlock E cfg folderName urlList =
     (case launch E of
        Some e \<Rightarrow> (Some e, [])
      | None \<Rightarrow>
          (case auditPages E cfg folderName 0 urlList of
             (Some e, pages, evs) \<Rightarrow> (Some e, [Launch, BarStart (length urlList)] @ evs)
           | (None, pages, evs) \<Rightarrow>
               (case closePages E pages of
                  (Some e, closed) \<Rightarrow>
                    (Some e, [Launch, BarStart (length urlList)] @ evs @ closed)
                | (None, closed) \<Rightarrow>
                    (case browserClose E of
                       Some e \<Rightarrow>
                         (Some e, [Launch, BarStart (length urlList)] @ evs @ closed @ [BarStop])
                     | None \<Rightarrow>
                         (None,
                          [Launch, BarStart (length urlList)] @ evs @ closed
                            @ [BarStop, BrowserClose])))))"

definition runPa11y ::
  "'r env \<Rightarrow> (string \<times> jsval) list \<Rightarrow> string \<Rightarrow> jsval list \<Rightarrow> js_error option \<times> event list" where
  "runPa11y E cfg folderName urlList =
     (case tryBlock E cfg folderName urlList of
        (None, evs) \<Rightarrow>
          (None,
           ok (''Found '' @ decimal (length urlList) @ '' pages, starting to process them...'')
             # evs)
      | (Some e, evs) \<Rightarrow>
          (Some e,
           ok (''Found '' @ decimal (length urlList) @ '' pages, starting to process them...'')
             # evs @ [Stderr (message e), BarStop]))"

subsection \<open>One sitemap (lines 129 to 150)\<close>

datatype settled = Fulfilled | Rejected js_error

record taskRun =
  settled :: settled
  events :: "event list"
  dirs :: "string list"

definition folderNameOf :: "string \<Rightarrow> string" where
  "folderNameOf hostname = replaceFirst ''.'' [] (replaceFirst ''www.'' [] hostname)"

text \<open>\<open>if ( ! existsSync( dir ) && config.reporter === 'html' ) mkdirSync( dir, ... )\<close>.
  \<open>existing\<close> lists the paths that exist.\<close>

definition ensureDir ::
  "'r env \<Rightarrow> (string \<times> jsval) list \<Rightarrow> string list \<Rightarrow> string
     \<Rightarrow> js_error + event list \<times> string list" where
  "ensureDir E cfg existing dir =
     (if dir \<notin> set existing \<and> isHtml cfg
      then (case mkdirSync E dir of
              Some e \<Rightarrow> Inl e
            | None \<Rightarrow> Inr ([MkdirSync dir], dir # existing))
      else Inr ([], existing))"

text \<open>
  The callback of \<open>config.sitemaps.forEach\<close>. It is an async function with no
  \<open>try\<close>: an exception of \<open>new URL\<close> or \<open>mkdirSync\<close> and a rejection of \<open>getUrls\<close>
  reject the promise the callback returns. \<open>runPa11y\<close> is called last and not awaited,
  and it handles its own errors, so its events follow those of the callback.
\<close>

definition sitemapTask ::
  "'r env \<Rightarrow> (string \<times> jsval) list \<Rightarrow> string list \<Rightarrow> string \<Rightarrow> taskRun" where
  "sitemapTask E cfg existing url =
     (case urlHostname E url of
        Inl e \<Rightarrow>
          \<lparr>settled = Rejected e,
           events = [ok (''Starting to process sitemap: '' @ url)],
           dirs = existing\<rparr>
      | Inr hostname \<Rightarrow>
          (case ensureDir E cfg existing (pathResolve E [outputDir E, folderNameOf hostname]) of
             Inl e \<Rightarrow>
               \<lparr>settled = Rejected e,
                events = [ok (''Starting to process sitemap: '' @ url)],
                dirs = existing\<rparr>
           | Inr (made, existing') \<Rightarrow>
               (case getUrls E url of
                  Inl e \<Rightarrow>
                    \<lparr>settled = Rejected e,
                     events = ok (''Starting to process sitemap: '' @ url) # made @ [HttpGet url],
                     dirs = existing'\<rparr>
                | Inr urlList \<Rightarrow>
                    \<lparr>settled = Fulfilled,
                     events = ok (''Starting to process sitemap: '' @ url) # made @ [HttpGet url]
                       @ (if length urlList > 0
                          then snd (runPa11y E cfg (folderNameOf hostname) urlList) else []),
                     dirs = existing'\<rparr>)))"

fun runTasks ::
  "'r env \<Rightarrow> (string \<times> jsval) list \<Rightarrow> string list \<Rightarrow> string list \<Rightarrow> taskRun list" where
  "runTasks E cfg existing [] = []"
| "runTasks E cfg existing (url # urls) =
     sitemapTask E cfg existing url
       # runTasks E cfg (dirs (sitemapTask E cfg existing url)) urls"

text \<open>
  The whole run. The callbacks start in the order of the list, and each one reaches its
  \<open>mkdirSync\<close> before the next one starts, so the directories are threaded through the
  tasks in that order; the events of each task are kept apart, since the tasks
  interleave after their first \<open>await\<close>. Nothing in the script handles the promise of a
  callback: what the process does when one is rejected is the policy of the runtime and
  is not part of the model.
\<close>

fun resolvedSitemaps :: "startup \<Rightarrow> string list" where
  "resolvedSitemaps (Ready cfg urls evs) = urls"
| "resolvedSitemaps (Exited n evs) = []"
| "resolvedSitemaps (Crashed e evs) = []"

definition main :: "'r env \<Rightarrow> opts \<Rightarrow> string list \<Rightarrow> startup \<times> taskRun list" where
  "main E os existing =
     (case resolveConfig (configFile E) os of
        Ready cfg urls evs \<Rightarrow> (Ready cfg urls evs, runTasks E cfg existing urls)
      | Exited n evs \<Rightarrow> (Exited n evs, [])
      | Crashed e evs \<Rightarrow> (Crashed e evs, []))"

subsection \<open>Reading a list of events\<close>

fun opened :: "event list \<Rightarrow> nat list" where
  "opened [] = []"
| "opened (NewPage page # evs) = page # opened evs"
| "opened (ev # evs) = opened evs"

fun audited :: "event list \<Rightarrow> jsval list" where
  "audited [] = []"
| "audited (Pa11y url page # evs) = url # audited evs"
| "audited (ev # evs) = audited evs"

fun isClose :: "event \<Rightarrow> bool" where
  "isClose (PageClose page) = True"
| "isClose BrowserClose = True"
| "isClose ev = False"

fun isMkdir :: "event \<Rightarrow> bool" where
  "isMkdir (MkdirSync dir) = True"
| "isMkdir ev = False"

fun written :: "event list \<Rightarrow> string list" where
  "written [] = []"
| "written (WriteFileSync file content # evs) = file # written evs"
| "written (ev # evs) = written evs"

fun printed :: "event list \<Rightarrow> string list" where
  "printed [] = []"
| "printed (Stdout line # evs) = line # printed evs"
| "printed (ev # evs) = printed evs"

subsection \<open>The tree of a sitemap\<close>

text \<open>
  What \<open>xml2js\<close> builds with its default options for a sitemap: an object whose
  \<open>urlset\<close> member is an object that holds the attributes of the element under \<open>$\<close>
  and, under \<open>url\<close>, the array of the \<open>url\<close> elements; each element is an object that
  holds its children by name, each name with the array of the children of that name.
  The members are read by name, so their order does not count.

  \<open>hasFirstLoc link l\<close>: the \<open>url\<close> element \<open>link\<close> has \<open>loc\<close> children, and the first
  is the text \<open>l\<close>. \<open>isSitemap data locs\<close>: \<open>data\<close> is the tree of a \<open>urlset\<close> whose
  \<open>url\<close> member is an array of as many elements as \<open>locs\<close>, the \<open>i\<close>-th with the
  \<open>i\<close>-th of \<open>locs\<close> as its first \<open>loc\<close>.

  A \<open>urlset\<close> element with no \<open>url\<close> child has no \<open>url\<close> member at all
  (\<open>emptyUrlset\<close>), and one with neither attribute nor child is the empty string
  (\<open>bareUrlset\<close>).
\<close>

definition hasFirstLoc :: "jsval \<Rightarrow> string \<Rightarrow> bool" where
  "hasFirstLoc link l =
     (case link of
        JObj children \<Rightarrow>
          (case lookup children ''loc'' of
             JArr (JStr head # tail) \<Rightarrow> head = l
           | _ \<Rightarrow> False)
      | _ \<Rightarrow> False)"

definition isSitemap :: "jsval \<Rightarrow> string list \<Rightarrow> bool" where
  "isSitemap data locs =
     (case data of
        JObj root \<Rightarrow>
          (case lookup root ''urlset'' of
             JObj members \<Rightarrow>
               (case lookup members ''url'' of
                  JArr links \<Rightarrow> list_all2 hasFirstLoc links locs
                | _ \<Rightarrow> False)
           | _ \<Rightarrow> False)
      | _ \<Rightarrow> False)"

definition emptyUrlset :: "string \<Rightarrow> jsval" where
  "emptyUrlset ns = JObj [(''urlset'', JObj [(''$'', JObj [(''xmlns'', JStr ns)])])]"

definition bareUrlset :: jsval where
  "bareUrlset = JObj [(''urlset'', JStr [])]"

subsection \<open>A world to run the script in\<close>

text \<open>
  One environment for the examples: \<open>www.example.com\<close> serves a sitemap of two pages,
  the second with its \<open>lastmod\<close> before its \<open>loc\<close>; \<open>new.example.net\<close> serves a
  \<open>urlset\<close> with no \<open>url\<close> element; and the host \<open>down.example.org\<close> cannot be
  reached. Paths are joined with a slash, every page can be opened, audited and closed
  and has no issue, and every file can be written.
\<close>

definition twoPagesXml :: string where
  "twoPagesXml =
     ''<urlset xmlns='http://www.sitemaps.org/schemas/sitemap/0.9'><url><loc>https://www.example.com/</loc></url><url><lastmod>2024-03-01</lastmod><loc>https://www.example.com/about</loc></url></urlset>''"

definition twoPages :: jsval where
  "twoPages =
     JObj [(''urlset'',
       JObj [(''$'', JObj [(''xmlns'', JStr ''http://www.sitemaps.org/schemas/sitemap/0.9'')]),
             (''url'',
              JArr [JObj [(''loc'', JArr [JStr ''https://www.example.com/''])],
                    JObj [(''lastmod'', JArr [JStr ''2024-03-01'']),
                          (''loc'', JArr [JStr ''https://www.example.com/about''])]])])]"

definition world :: "string env" where
  "world =
     \<lparr>cwd = ''/home/user/site'',
      pathResolve = joinWith ''/'',
      configFile = None,
      urlHostname = (\<lambda>url.
        if url = ''https://www.example.com/sitemap.xml'' then Inr ''www.example.com''
        else if url = ''https://new.example.net/sitemap.xml'' then Inr ''new.example.net''
        else if url = ''https://down.example.org/sitemap.xml'' then Inr ''down.example.org''
        else Inl (TypeError ''Invalid URL'')),
      mkdirSync = (\<lambda>dir. None),
      fetchText = (\<lambda>url.
        if url = ''https://www.example.com/sitemap.xml'' then Inr twoPagesXml
        else if url = ''https://new.example.net/sitemap.xml'' then Inr ''<urlset></urlset>''
        else Inl (Failure ''getaddrinfo ENOTFOUND down.example.org'')),
      parseString = (\<lambda>content.
        if content = twoPagesXml then Inr twoPages
        else if content = ''<urlset></urlset>'' then Inr bareUrlset
        else Inl (Failure ''Non-whitespace before first tag.'')),
      launch = None,
      newPage = (\<lambda>i. Inr i),
      pa11y = (\<lambda>url page cfg. Inr (''issues of '' @ toStr url)),
      reporterHtml = (\<lambda>result. Inr (''<html>'' @ result @ ''</html>'')),
      reporterJson = (\<lambda>result. ''[]''),
      reporterCli = (\<lambda>result. ''No issues found!''),
      now = (\<lambda>i. \<lparr>getFullYear = 2024, getMonth = 2, getDate = 5\<rparr>),
      writeFileSync = (\<lambda>file content. None),
      pageClose = (\<lambda>page. None),
      browserClose = None\<rparr>"

text \<open>The default configuration with the reporter \<open>console\<close>.\<close>

definition consoleConfig :: "(string \<times> jsval) list" where
  "consoleConfig = setProp defaultConfig ''reporter'' (JStr ''console'')"

text \<open>Two command lines: \<open>-s https://www.example.com/sitemap.xml -d /srv/reports\<close>, and
  \<open>-s https://a.example/sitemap.xml\<close>; and a configuration file that lists one sitemap.\<close>

definition manualRun :: opts where
  "manualRun =
     \<lparr>reporter = ''html'', destination = Some ''/srv/reports'',
      sitemaps = Given [''https://www.example.com/sitemap.xml'']\<rparr>"

definition cliOnly :: opts where
  "cliOnly =
     \<lparr>reporter = ''html'', destination = None,
      sitemaps = Given [''https://a.example/sitemap.xml'']\<rparr>"

definition fileSitemaps :: jsval where
  "fileSitemaps = JObj [(''sitemaps'', JArr [JStr ''https://b.example/sitemap.xml''])]"

text \<open>A command line with a padded entry, a repeated one and a blank one.\<close>

definition untidyRun :: opts where
  "untidyRun =
     \<lparr>reporter = ''html'', destination = None,
      sitemaps = Given [''  https://a.example/sitemap.xml '', ''https://b.example/sitemap.xml'',
                        ''   '', ''https://a.example/sitemap.xml'']\<rparr>"

section \<open>Properties\<close>

subsection \<open>Characters and numerals\<close>

lemma code_char_of: "code (char_of n) = n mod 256"
  by (simp add: code_def)

lemma code_inj: "code a = code b \<Longrightarrow> a = b"
  by (simp add: code_def)

lemma code_underscore: "code (CHR ''_'') = 95"
  by (simp add: code_def)

lemma code_digitChar: "d < 10 \<Longrightarrow> code (digitChar d) = 48 + d"
  by (simp add: code_char_of digitChar_def)

lemma slugChar_digit: "d < 10 \<Longrightarrow> slugChar (digitChar d)"
  by (simp add: slugChar_def code_digitChar)

lemma slugChar_hyphen: "slugChar (CHR ''-'')"
  by (simp add: slugChar_def)

lemma decimal_chars: "list_all slugChar (decimal n)"
proof (induction n rule: decimal.induct)
  case (1 n)
  show ?case
  proof (cases "n < 10")
    case True
    then show ?thesis by (subst decimal.simps) (simp add: slugChar_digit)
  next
    case False
    with 1 show ?thesis by (subst decimal.simps) (simp add: slugChar_digit)
  qed
qed

lemma decimal_nonempty: "decimal n \<noteq> []"
  by (subst decimal.simps) simp

lemma decimal_hd: "0 < n \<Longrightarrow> hd (decimal n) \<noteq> CHR ''0''"
proof (induction n rule: decimal.induct)
  case (1 n)
  show ?case
  proof (cases "n < 10")
    case True
    with 1(2) have "code (digitChar n) \<noteq> code (CHR ''0'')"
      by (simp add: code_digitChar) (simp add: code_def)
    with True show ?thesis by (subst decimal.simps) auto
  next
    case False
    then have "0 < n div 10" by simp
    with 1(1) False have "hd (decimal (n div 10)) \<noteq> CHR ''0''" by simp
    with False show ?thesis
      using decimal_nonempty [of "n div 10"] by (subst decimal.simps) simp
  qed
qed

lemma decimal_length_digit: "n < 10 \<Longrightarrow> length (decimal n) = 1"
  by (subst decimal.simps) simp

lemma decimal_length_more: "10 \<le> n \<Longrightarrow> length (decimal n) = Suc (length (decimal (n div 10)))"
  by (subst decimal.simps) simp

lemma decimal_length_year:
  assumes "1000 \<le> n" and "n \<le> 9999"
  shows "length (decimal n) = 4"
proof -
  from assms have "10 \<le> n" and "10 \<le> n div 10" and "10 \<le> n div 10 div 10"
    and "n div 10 div 10 div 10 < 10"
    by arith+
  then show ?thesis
    by (simp add: decimal_length_more decimal_length_digit)
qed

lemma lowerChar_not_upper: "\<not> (65 \<le> code (lowerChar c) \<and> code (lowerChar c) \<le> 90)"
proof (cases "(65 \<le> code c \<and> code c \<le> 90) \<or> (192 \<le> code c \<and> code c \<le> 222 \<and> code c \<noteq> 215)")
  case True
  then have "code (lowerChar c) = code c + 32"
    by (auto simp: lowerChar_def code_char_of)
  with True show ?thesis by arith
next
  case False
  then have "lowerChar c = c" unfolding lowerChar_def by (rule if_not_P)
  with False show ?thesis by arith
qed

lemma kept_lower_word:
  assumes "isWord (lowerChar c)"
  shows "slugChar (lowerChar c) \<or> lowerChar c = CHR ''_''"
proof (cases "code (lowerChar c) = 95")
  case True
  then have "lowerChar c = CHR ''_''"
    by (intro code_inj) (simp add: code_underscore)
  then show ?thesis ..
next
  case False
  with assms lowerChar_not_upper [of c] have "slugChar (lowerChar c)"
    unfolding isWord_def slugChar_def by blast
  then show ?thesis ..
qed

subsection \<open>The name of a report file\<close>

lemma set_collapseSeps:
  "set (collapseSeps s) \<subseteq> {c \<in> set s. \<not> isSep c} \<union> {CHR ''-''}"
proof (induction s rule: collapseSeps.induct)
  case 1
  show ?case by simp
next
  case (2 c cs)
  show ?case
  proof (cases "isSep c")
    case True
    have "set (dropWhile isSep cs) \<subseteq> set cs" by (rule set_dropWhileD [THEN subsetI])
    with 2(1) [OF True] True show ?thesis by auto
  next
    case False
    with 2(2) show ?thesis by auto
  qed
qed

lemma set_replaceFirst_empty: "set (replaceFirst pat [] s) \<subseteq> set s"
proof (induction s)
  case Nil
  show ?case by simp
next
  case (Cons c cs)
  have "set (drop (length pat) (c # cs)) \<subseteq> set (c # cs)" by (rule set_drop_subset)
  with Cons show ?case by auto
qed

lemma set_trimmed: "set (rev (dropWhile P (rev (dropWhile P s)))) \<subseteq> set s"
proof -
  have "set (dropWhile P (rev (dropWhile P s))) \<subseteq> set (dropWhile P s)"
    using set_dropWhileD [of _ P "rev (dropWhile P s)"] by auto
  also have "\<dots> \<subseteq> set s"
    using set_dropWhileD [of _ P s] by auto
  finally show ?thesis by simp
qed

lemma fileSlug_chars: "list_all slugChar (fileSlug url)"
proof -
  let ?kept = "filter (\<lambda>c. isWord c \<or> isSpace c \<or> c = CHR ''-'') (trim (toLowerCase url))"
  have lower: "\<exists>a. c = lowerChar a" if "c \<in> set (trim (toLowerCase url))" for c
  proof -
    from that have "c \<in> set (toLowerCase url)"
      unfolding trim_def using set_trimmed [of isSpace "toLowerCase url"] by blast
    then show ?thesis by (auto simp: toLowerCase_def)
  qed
  have kept: "slugChar c" if "c \<in> set ?kept" and "\<not> isSep c" for c
  proof -
    from that(1) obtain a where a: "c = lowerChar a" using lower by auto
    from that have "isWord c" by (auto simp: isSep_def)
    with a kept_lower_word [of a] that(2) show ?thesis by (auto simp: isSep_def)
  qed
  have "slugChar c" if "c \<in> set (collapseSeps ?kept)" for c
    using that set_collapseSeps [of ?kept] kept slugChar_hyphen by blast
  moreover have "set (fileSlug url) \<subseteq> set (collapseSeps ?kept)"
    unfolding fileSlug_def trimHyphens_def
    using set_replaceFirst_empty set_trimmed by (rule subset_trans)
  ultimately show ?thesis by (auto simp: list_all_iff)
qed

text \<open>
  C6. \<open>getFileName\<close> is a function of the page URL and the current date alone: the same
  URL and the same date give the same name. The name is the year, the month counted
  from 1 and the day of the month as decimal numerals, each followed by a hyphen, then
  the slug, then \<open>.html\<close>. The month and the day carry no leading zero, a year from 1000
  to 9999 has four digits, and every character before the extension is one of
  \<open>[a-z0-9-]\<close>.
\<close>

theorem getFileName_format:
  "(\<forall>dt' url'. dt' = dt \<and> url' = url \<longrightarrow> getFileName dt' url' = getFileName dt url)
   \<and> getFileName dt url =
       (decimal (getFullYear dt) @ ''-'' @ decimal (getMonth dt + 1) @ ''-''
          @ decimal (getDate dt) @ ''-'' @ fileSlug url) @ ''.html''
   \<and> (1000 \<le> getFullYear dt \<and> getFullYear dt \<le> 9999
        \<longrightarrow> length (decimal (getFullYear dt)) = 4)
   \<and> hd (decimal (getMonth dt + 1)) \<noteq> CHR ''0''
   \<and> (1 \<le> getDate dt \<longrightarrow> hd (decimal (getDate dt)) \<noteq> CHR ''0'')
   \<and> list_all slugChar
       (decimal (getFullYear dt) @ ''-'' @ decimal (getMonth dt + 1) @ ''-''
          @ decimal (getDate dt) @ ''-'' @ fileSlug url)"
proof -
  have "hd (decimal (getMonth dt + 1)) \<noteq> CHR ''0''"
    by (rule decimal_hd) simp
  moreover have "1 \<le> getDate dt \<longrightarrow> hd (decimal (getDate dt)) \<noteq> CHR ''0''"
    using decimal_hd [of "getDate dt"] by simp
  moreover have "1000 \<le> getFullYear dt \<and> getFullYear dt \<le> 9999
        \<longrightarrow> length (decimal (getFullYear dt)) = 4"
    using decimal_length_year [of "getFullYear dt"] by simp
  moreover have "list_all slugChar
       (decimal (getFullYear dt) @ ''-'' @ decimal (getMonth dt + 1) @ ''-''
          @ decimal (getDate dt) @ ''-'' @ fileSlug url)"
    by (simp add: decimal_chars fileSlug_chars slugChar_hyphen)
  ultimately show ?thesis
    by (simp add: getFileName_def)
qed

theorem getFileName_format_witness:
  "getFileName \<lparr>getFullYear = 2024, getMonth = 2, getDate = 5\<rparr>
       ''  https://www.Example.com/About_Us/?a=1 ''
     = ''2024-3-5-examplecomabout-usa1.html''
   \<and> (1000::nat) \<le> getFullYear \<lparr>getFullYear = 2024, getMonth = 2, getDate = 5\<rparr>
   \<and> getFullYear \<lparr>getFullYear = 2024, getMonth = 2, getDate = 5\<rparr> \<le> (9999::nat)
   \<and> length (decimal (getFullYear \<lparr>getFullYear = 2024, getMonth = 2, getDate = 5\<rparr>)) = 4
   \<and> (1::nat) \<le> getDate \<lparr>getFullYear = 2024, getMonth = 2, getDate = 5\<rparr>
   \<and> hd (decimal (getDate \<lparr>getFullYear = 2024, getMonth = 2, getDate = 5\<rparr>)) \<noteq> CHR ''0''
   \<and> list_all slugChar ''2024-3-5-examplecomabout-usa1''"
proof -
  let ?dt = "\<lparr>getFullYear = 2024, getMonth = 2, getDate = 5\<rparr>"
  let ?url = "''  https://www.Example.com/About_Us/?a=1 ''"
  have whole: "getFileName ?dt ?url = ''2024-3-5-examplecomabout-usa1.html''"
    by code_simp
  have stem: "decimal (getFullYear ?dt) @ ''-'' @ decimal (getMonth ?dt + 1) @ ''-''
          @ decimal (getDate ?dt) @ ''-'' @ fileSlug ?url = ''2024-3-5-examplecomabout-usa1''"
    by code_simp
  from getFileName_format [of ?dt ?url] stem whole show ?thesis
    by simp
qed

subsection \<open>The sitemap list of the configuration\<close>

lemma addAll_set: "set (addAll seen xs) = set seen \<union> set xs"
  by (induction xs arbitrary: seen) auto

lemma addAll_distinct: "distinct seen \<Longrightarrow> distinct (addAll seen xs)"
  by (induction xs arbitrary: seen) auto

lemma arrayFromSet_set: "set (arrayFromSet xs) = set xs"
  by (simp add: arrayFromSet_def addAll_set)

lemma arrayFromSet_distinct: "distinct (arrayFromSet xs)"
  by (simp add: arrayFromSet_def addAll_distinct)

lemma mapResult_Inr:
  "mapResult f xs = Inr ys \<Longrightarrow> (\<And>x y. f x = Inr y \<Longrightarrow> y = g x) \<Longrightarrow> ys = map g xs"
proof (induction xs arbitrary: ys)
  case Nil
  then show ?case by simp
next
  case (Cons x xs)
  from Cons.prems(1) obtain y ys' where
    y: "f x = Inr y" and ys': "mapResult f xs = Inr ys'" and ys: "ys = y # ys'"
    by (auto split: sum.splits)
  from Cons.IH [OF ys' Cons.prems(2)] have "ys' = map g xs" by simp
  with y ys Cons.prems(2) [OF y] show ?case by simp
qed

lemma mapResult_total:
  "(\<And>x. x \<in> set xs \<Longrightarrow> f x = Inr (g x)) \<Longrightarrow> mapResult f xs = Inr (map g xs)"
  by (induction xs) simp_all

lemma toStringMethod_Inr: "toStringMethod a = Inr s \<Longrightarrow> s = toStr a"
  by (cases a) (auto split: if_splits)

lemma trimmedString_Inr: "trimmedString a = Inr s \<Longrightarrow> s = trim (toStr a)"
  by (cases "toStringMethod a") (auto simp: trimmedString_def andThen_def dest: toStringMethod_Inr)

lemma arrayMap_Inr: "arrayMap v f = Inr ys \<Longrightarrow> \<exists>xs. v = JArr xs \<and> mapResult f xs = Inr ys"
  by (cases v) simp_all

lemma normaliseSitemaps_Inr:
  assumes "normaliseSitemaps v = Inr urls"
  shows "\<exists>entries. v = JArr entries
           \<and> urls = arrayFromSet (filter (\<lambda>a. a \<noteq> []) (map (\<lambda>a. trim (toStr a)) entries))"
proof -
  from assms obtain strs where
    strs: "arrayMap v trimmedString = Inr strs" and
    urls: "urls = arrayFromSet (filter (\<lambda>a. a \<noteq> []) strs)"
    by (cases "arrayMap v trimmedString") (auto simp: normaliseSitemaps_def andThen_def)
  from arrayMap_Inr [OF strs] obtain entries where
    v: "v = JArr entries" and m: "mapResult trimmedString entries = Inr strs"
    by blast
  from mapResult_Inr [OF m, of "\<lambda>a. trim (toStr a)"] have "strs = map (\<lambda>a. trim (toStr a)) entries"
    by (simp add: trimmedString_Inr)
  with v urls show ?thesis by simp
qed

lemma normaliseSitemaps_strings:
  "normaliseSitemaps (JArr (map JStr xs)) = Inr (arrayFromSet (filter (\<lambda>a. a \<noteq> []) (map trim xs)))"
proof -
  have "mapResult trimmedString (map JStr xs) = Inr (map (\<lambda>a. trim (toStr a)) (map JStr xs))"
    by (rule mapResult_total) (auto simp: trimmedString_def andThen_def)
  then show ?thesis
    by (simp add: normaliseSitemaps_def andThen_def comp_def)
qed

lemma lookup_setProp: "lookup (setProp obj k v) k' = (if k' = k then v else lookup obj k')"
  by (induction obj k v rule: setProp.induct) auto

lemma resolveConfig_Ready:
  assumes "resolveConfig searchedFor os = Ready cfg urls evs"
  shows "normaliseSitemaps (lookup (config searchedFor os) ''sitemaps'') = Inr urls
         \<and> cfg = setProp (config searchedFor os) ''sitemaps'' (JArr (map JStr urls))
         \<and> urls \<noteq> []"
  using assms
  by (auto simp: resolveConfig_def split: if_splits sum.splits)

text \<open>
  C7. The sitemap list is normalised before it is used. A list of strings always
  normalises: the result holds no string twice, and it holds exactly the trimmed
  entries that are not empty. And whenever the run gets as far as processing, the merged
  \<open>sitemaps\<close> value of the command line and the configuration file was an array, and the
  list the configuration then holds, which is the list that is processed, holds no
  entry twice and holds exactly the trimmed strings of the entries of that array, the
  empty ones left out.
\<close>

theorem sitemaps_normalised:
  "(\<exists>urls. normaliseSitemaps (JArr (map JStr xs)) = Inr urls
       \<and> distinct urls \<and> set urls = trim ` set xs - {[]})
   \<and> (resolveConfig searchedFor os = Ready cfg urls evs \<longrightarrow>
       (\<exists>entries. lookup (config searchedFor os) ''sitemaps'' = JArr entries
          \<and> lookup cfg ''sitemaps'' = JArr (map JStr urls)
          \<and> distinct urls
          \<and> set urls = (\<lambda>a. trim (toStr a)) ` set entries - {[]}))"
proof (intro conjI impI)
  show "\<exists>urls. normaliseSitemaps (JArr (map JStr xs)) = Inr urls
       \<and> distinct urls \<and> set urls = trim ` set xs - {[]}"
    by (auto simp: normaliseSitemaps_strings arrayFromSet_distinct arrayFromSet_set)
next
  assume r: "resolveConfig searchedFor os = Ready cfg urls evs"
  from resolveConfig_Ready [OF r] have
    n: "normaliseSitemaps (lookup (config searchedFor os) ''sitemaps'') = Inr urls" and
    c: "cfg = setProp (config searchedFor os) ''sitemaps'' (JArr (map JStr urls))"
    by simp_all
  from normaliseSitemaps_Inr [OF n] obtain entries where
    e: "lookup (config searchedFor os) ''sitemaps'' = JArr entries" and
    u: "urls = arrayFromSet (filter (\<lambda>a. a \<noteq> []) (map (\<lambda>a. trim (toStr a)) entries))"
    by blast
  from u have "distinct urls" by (simp add: arrayFromSet_distinct)
  moreover from u have "set urls = (\<lambda>a. trim (toStr a)) ` set entries - {[]}"
    by (auto simp: arrayFromSet_set)
  moreover from c have "lookup cfg ''sitemaps'' = JArr (map JStr urls)"
    by (simp add: lookup_setProp)
  ultimately show "\<exists>entries. lookup (config searchedFor os) ''sitemaps'' = JArr entries
          \<and> lookup cfg ''sitemaps'' = JArr (map JStr urls)
          \<and> distinct urls
          \<and> set urls = (\<lambda>a. trim (toStr a)) ` set entries - {[]}"
    using e by blast
qed

theorem sitemaps_normalised_witness:
  "normaliseSitemaps
       (JArr (map JStr [''  https://a.example/sitemap.xml '', ''https://b.example/sitemap.xml'',
                        ''   '', ''https://a.example/sitemap.xml'']))
     = Inr [''https://a.example/sitemap.xml'', ''https://b.example/sitemap.xml'']
   \<and> resolveConfig None untidyRun
     = Ready (setProp (config None untidyRun) ''sitemaps''
                (JArr [JStr ''https://a.example/sitemap.xml'', JStr ''https://b.example/sitemap.xml'']))
         [''https://a.example/sitemap.xml'', ''https://b.example/sitemap.xml'']
         [Stdout ''Running Pa11y for:  https://a.example/sitemap.xml, https://b.example/sitemap.xml'']
   \<and> lookup (setProp (config None untidyRun) ''sitemaps''
                (JArr [JStr ''https://a.example/sitemap.xml'', JStr ''https://b.example/sitemap.xml'']))
         ''sitemaps''
       = JArr [JStr ''https://a.example/sitemap.xml'', JStr ''https://b.example/sitemap.xml'']
   \<and> distinct [''https://a.example/sitemap.xml'', ''https://b.example/sitemap.xml'']"
proof -
  let ?given = "[''  https://a.example/sitemap.xml '', ''https://b.example/sitemap.xml'',
                 ''   '', ''https://a.example/sitemap.xml'']"
  let ?urls = "[''https://a.example/sitemap.xml'', ''https://b.example/sitemap.xml'']"
  let ?cfg = "setProp (config None untidyRun) ''sitemaps''
                (JArr [JStr ''https://a.example/sitemap.xml'', JStr ''https://b.example/sitemap.xml''])"
  let ?evs = "[Stdout ''Running Pa11y for:  https://a.example/sitemap.xml, https://b.example/sitemap.xml'']"
  have n: "normaliseSitemaps (JArr (map JStr ?given)) = Inr ?urls"
    by code_simp
  have r: "resolveConfig None untidyRun = Ready ?cfg ?urls ?evs"
    by code_simp
  from sitemaps_normalised [of ?given None untidyRun ?cfg ?urls ?evs] n r show ?thesis
    by auto
qed

subsection \<open>Merging the command line and the configuration file\<close>

lemma lookup_spread:
  "distinct (map fst props) \<Longrightarrow>
     lookup (spread obj props) k = (if k \<in> fst ` set props then lookup props k else lookup obj k)"
proof (induction props arbitrary: obj)
  case Nil
  then show ?case by (simp add: spread_def)
next
  case (Cons kv props)
  obtain k' v' where kv: "kv = (k', v')" by (cases kv)
  have step: "spread obj (kv # props) = spread (setProp obj k' v') props"
    by (simp add: spread_def kv)
  from Cons.prems kv have d: "distinct (map fst props)" and notin: "k' \<notin> fst ` set props"
    by auto
  from Cons.IH [OF d, of "setProp obj k' v'"] notin show ?case
    unfolding step by (auto simp: kv lookup_setProp)
qed

lemma keys_setProp: "fst ` set (setProp obj k v) = insert k (fst ` set obj)"
  by (induction obj k v rule: setProp.induct) auto

lemma distinct_setProp:
  "distinct (map fst obj) \<Longrightarrow> distinct (map fst (setProp obj k v))"
proof (induction obj k v rule: setProp.induct)
  case (1 k v)
  show ?case by simp
next
  case (2 k' v' kvs k v)
  show ?case
  proof (cases "k' = k")
    case True
    with 2(2) show ?thesis by simp
  next
    case False
    with 2 have "distinct (map fst (setProp kvs k v))" by simp
    moreover from 2(2) False have "k' \<notin> fst ` set (setProp kvs k v)"
      by (simp add: keys_setProp)
    ultimately show ?thesis using False by simp
  qed
qed

lemma spread_Cons: "spread obj (kv # props) = spread (setProp obj (fst kv) (snd kv)) props"
  by (simp add: spread_def)

lemma keys_spread: "fst ` set (spread obj props) = fst ` set obj \<union> fst ` set props"
proof (induction props arbitrary: obj)
  case Nil
  show ?case by (simp add: spread_def)
next
  case (Cons kv props)
  show ?case
    unfolding spread_Cons Cons.IH by (simp add: keys_setProp)
qed

lemma distinct_spread:
  "distinct (map fst obj) \<Longrightarrow> distinct (map fst (spread obj props))"
proof (induction props arbitrary: obj)
  case Nil
  then show ?case by (simp add: spread_def)
next
  case (Cons kv props)
  from Cons.prems have "distinct (map fst (setProp obj (fst kv) (snd kv)))"
    by (rule distinct_setProp)
  then show ?case
    unfolding spread_Cons by (rule Cons.IH)
qed

text \<open>
  What the merge does with a configuration file that is an object: its \<open>sitemaps\<close>
  property, when it has one, replaces the list of the command line; the list of the
  command line is used only when the file has none.
\<close>

lemma config_sitemaps:
  assumes "distinct (map fst props)"
  shows "lookup (config (Some (JObj props)) os) ''sitemaps''
           = (if ''sitemaps'' \<in> fst ` set props then lookup props ''sitemaps''
              else sitemapsOrEmpty (sitemaps os))"
proof -
  let ?cli = "[(''sitemaps'', sitemapsOrEmpty (sitemaps os))]"
  let ?loaded = "spread ?cli props"
  have loaded: "loadedConfig (Some (JObj props)) os = ?loaded"
    by (simp add: loadedConfig_def orElse_def)
  have d: "distinct (map fst ?loaded)"
    by (rule distinct_spread) simp
  have k: "''sitemaps'' \<in> fst ` set ?loaded"
    by (simp add: keys_spread)
  have "lookup (config (Some (JObj props)) os) ''sitemaps'' = lookup ?loaded ''sitemaps''"
    unfolding config_def loaded using lookup_spread [OF d, of defaultConfig "''sitemaps''"] k
    by simp
  also have "\<dots> = (if ''sitemaps'' \<in> fst ` set props then lookup props ''sitemaps''
              else sitemapsOrEmpty (sitemaps os))"
    using lookup_spread [OF assms, of ?cli "''sitemaps''"] by simp
  finally show ?thesis .
qed

text \<open>
  C2. With the sitemap \<open>https://a.example/sitemap.xml\<close> on the command line and a
  configuration file that lists \<open>https://b.example/sitemap.xml\<close>, the list the run
  processes is the list of the file alone: the sitemap of the command line is not in it.
  (The second program concatenates the list of the command line to the list of the
  file, but only when \<open>opts.sitemap\<close> is set, a property the options never have.)
\<close>

theorem cli_sitemaps_dropped:
  "sitemaps cliOnly = Given [''https://a.example/sitemap.xml'']
   \<and> fileSitemaps = JObj [(''sitemaps'', JArr [JStr ''https://b.example/sitemap.xml''])]
   \<and> resolvedSitemaps (resolveConfig (Some fileSitemaps) cliOnly)
       = [''https://b.example/sitemap.xml'']
   \<and> ''https://a.example/sitemap.xml''
       \<notin> set (resolvedSitemaps (resolveConfig (Some fileSitemaps) cliOnly))"
proof -
  have "resolvedSitemaps (resolveConfig (Some fileSitemaps) cliOnly)
          = [''https://b.example/sitemap.xml'']"
    by code_simp
  then show ?thesis
    by (simp add: cliOnly_def fileSitemaps_def)
qed

subsection \<open>The destination of the reports\<close>

lemma config_destination: "config searchedFor (os\<lparr>destination := d\<rparr>) = config searchedFor os"
  by (cases searchedFor) (simp_all add: config_def loadedConfig_def)

lemma resolveConfig_destination:
  "resolveConfig searchedFor (os\<lparr>destination := d\<rparr>) = resolveConfig searchedFor os"
  unfolding resolveConfig_def config_destination by simp

lemma manualRun_written:
  "map (\<lambda>run. written (events run)) (snd (main world manualRun []))
       = [[''/home/user/site/output/examplecom/2024-3-5-examplecom.html'',
           ''/home/user/site/output/examplecom/2024-3-5-examplecomabout.html'']]"
  by code_simp

text \<open>
  C5. The value of \<open>--destination\<close> has no effect on the run: a run with any other value
  is the same run. With \<open>-d /srv/reports\<close>, in the directory \<open>/home/user/site\<close> and with
  the default reporter \<open>html\<close>, the two reports of \<open>www.example.com\<close> are written under
  \<open>/home/user/site/output\<close>. (The option is declared with the help text
  \<open>Output destination\<close>; \<open>opts.destination\<close> is read nowhere, in either program.)
\<close>

theorem destination_flag_unused:
  "main E (os\<lparr>destination := d\<rparr>) existing = main E os existing
   \<and> destination manualRun = Some ''/srv/reports''
   \<and> map (\<lambda>run. written (events run)) (snd (main world manualRun []))
       = [[''/home/user/site/output/examplecom/2024-3-5-examplecom.html'',
           ''/home/user/site/output/examplecom/2024-3-5-examplecomabout.html'']]"
proof -
  have "main E (os\<lparr>destination := d\<rparr>) existing = main E os existing"
    by (simp add: main_def resolveConfig_destination)
  moreover have "destination manualRun = Some ''/srv/reports''"
    by (simp add: manualRun_def)
  ultimately show ?thesis
    using manualRun_written by simp
qed

subsection \<open>The URLs of a sitemap\<close>

lemma locOf_hasFirstLoc: "hasFirstLoc link l \<Longrightarrow> locOf link = Inr (JStr l)"
  by (auto simp: hasFirstLoc_def locOf_def andThen_def split: jsval.splits list.splits)

lemma mapResult_locOf:
  "list_all2 hasFirstLoc links locs \<Longrightarrow> mapResult locOf links = Inr (map JStr locs)"
  by (induction links locs rule: list_all2_induct) (simp_all add: locOf_hasFirstLoc)

lemma urlsOf_isSitemap:
  assumes "isSitemap data locs"
  shows "urlsOf data = Inr (map JStr locs)"
proof -
  from assms obtain root members links where
    data: "data = JObj root" and
    urlset: "lookup root ''urlset'' = JObj members" and
    url: "lookup members ''url'' = JArr links" and
    links: "list_all2 hasFirstLoc links locs"
    by (auto simp: isSitemap_def split: jsval.splits)
  from links have len: "length links = length locs"
    by (rule list_all2_lengthD)
  show ?thesis
  proof (cases links)
    case Nil
    with len data urlset url show ?thesis
      by (simp add: urlsOf_def andThen_def)
  next
    case (Cons link rest)
    then have "truthy (JNum (int (length links)))" by simp
    with data urlset url mapResult_locOf [OF links] show ?thesis
      by (simp add: urlsOf_def andThen_def)
  qed
qed

text \<open>
  C8. When the sitemap is fetched and parses to the tree of a \<open>urlset\<close> whose \<open>url\<close>
  member is the array of \<open>N\<close> \<open>url\<close> elements, each with its \<open>loc\<close>, \<open>getUrls\<close> returns
  exactly \<open>N\<close> strings, the texts of the \<open>loc\<close> elements, one for each, in the order of
  the document. The members of the tree are found by their names, wherever they stand
  (the attributes of \<open>urlset\<close> and the other children of a \<open>url\<close> may come first), and
  the entries need not differ from one another. (A document with no \<open>url\<close> element at
  all has no \<open>url\<close> member in its tree; it is the subject of C3.)
\<close>

theorem getUrls_document_order:
  assumes "fetchText E url = Inr content"
    and "parseString E content = Inr data"
    and "isSitemap data locs"
  shows "getUrls E url = Inr (map JStr locs) \<and> length (map JStr locs) = length locs"
  using assms by (simp add: getUrls_def andThen_def urlsOf_isSitemap)

theorem getUrls_document_order_witness:
  "fetchText world ''https://www.example.com/sitemap.xml'' = Inr twoPagesXml
   \<and> parseString world twoPagesXml = Inr twoPages
   \<and> isSitemap twoPages [''https://www.example.com/'', ''https://www.example.com/about'']
   \<and> getUrls world ''https://www.example.com/sitemap.xml''
       = Inr [JStr ''https://www.example.com/'', JStr ''https://www.example.com/about'']"
proof -
  have f: "fetchText world ''https://www.example.com/sitemap.xml'' = Inr twoPagesXml"
    by (simp add: world_def)
  have p: "parseString world twoPagesXml = Inr twoPages"
    by (simp add: world_def)
  have t: "isSitemap twoPages [''https://www.example.com/'', ''https://www.example.com/about'']"
    by code_simp
  from getUrls_document_order [OF f p t] f p t show ?thesis by simp
qed

text \<open>Whenever the \<open>urlset\<close> object has no \<open>url\<close> member, reading \<open>url.length\<close> throws.\<close>

lemma urlsOf_no_url_member:
  "lookup members ''url'' = JUndefined \<Longrightarrow>
     urlsOf (JObj [(''urlset'', JObj members)])
       = Inl (TypeError ''Cannot read properties of undefined (reading length)'')"
  by (simp add: urlsOf_def andThen_def)

lemma new_example_net_task:
  "sitemapTask world defaultConfig [] ''https://new.example.net/sitemap.xml''
     = \<lparr>settled = Rejected (TypeError ''Cannot read properties of undefined (reading length)''),
        events =
          [Stdout ''(*) Starting to process sitemap: https://new.example.net/sitemap.xml'',
           MkdirSync ''/home/user/site/output/newexample.net'',
           HttpGet ''https://new.example.net/sitemap.xml''],
        dirs = [''/home/user/site/output/newexample.net'']\<rparr>"
  by code_simp

text \<open>
  C3. For a \<open>urlset\<close> with no \<open>url\<close> element, \<open>getUrls\<close> throws: \<open>data.urlset.url\<close> is
  \<open>undefined\<close>, and reading its \<open>length\<close> is a \<open>TypeError\<close>. This holds for the tree of
  a \<open>urlset\<close> that has its namespace attribute and for the tree of a bare one. Only for
  a \<open>url\<close> member that is an empty array does \<open>getUrls\<close> return the empty list,
  whatever the other members of the \<open>urlset\<close> are and wherever they stand. The task of
  \<open>new.example.net\<close>, whose sitemap is \<open><urlset></urlset>\<close>, ends with its promise
  rejected, and no audit is started.
\<close>

theorem absent_url_member_throws:
  "urlsOf (emptyUrlset ns)
     = Inl (TypeError ''Cannot read properties of undefined (reading length)'')
   \<and> urlsOf bareUrlset = Inl (TypeError ''Cannot read properties of undefined (reading length)'')
   \<and> urlsOf (JObj [(''urlset'', JObj ((''url'', JArr []) # members))]) = Inr []
   \<and> urlsOf (JObj [(''urlset'', JObj [(''$'', JObj [(''xmlns'', JStr ns)]), (''url'', JArr [])])])
       = Inr []
   \<and> sitemapTask world defaultConfig [] ''https://new.example.net/sitemap.xml''
     = \<lparr>settled = Rejected (TypeError ''Cannot read properties of undefined (reading length)''),
        events =
          [Stdout ''(*) Starting to process sitemap: https://new.example.net/sitemap.xml'',
           MkdirSync ''/home/user/site/output/newexample.net'',
           HttpGet ''https://new.example.net/sitemap.xml''],
        dirs = [''/home/user/site/output/newexample.net'']\<rparr>"
proof -
  have "urlsOf (emptyUrlset ns)
     = Inl (TypeError ''Cannot read properties of undefined (reading length)'')"
    by (simp add: emptyUrlset_def urlsOf_no_url_member)
  moreover have "urlsOf bareUrlset
     = Inl (TypeError ''Cannot read properties of undefined (reading length)'')"
    by (simp add: bareUrlset_def urlsOf_def andThen_def)
  moreover have "urlsOf (JObj [(''urlset'', JObj ((''url'', JArr []) # members))]) = Inr []"
    by (simp add: urlsOf_def andThen_def)
  moreover have
    "urlsOf (JObj [(''urlset'', JObj [(''$'', JObj [(''xmlns'', JStr ns)]), (''url'', JArr [])])])
       = Inr []"
    by (simp add: urlsOf_def andThen_def)
  ultimately show ?thesis
    using new_example_net_task by simp
qed

subsection \<open>The audit of the pages\<close>

lemma opened_append: "opened (xs @ ys) = opened xs @ opened ys"
  by (induction xs rule: opened.induct) simp_all

lemma audited_append: "audited (xs @ ys) = audited xs @ audited ys"
  by (induction xs rule: audited.induct) simp_all

lemma printed_append: "printed (xs @ ys) = printed xs @ printed ys"
  by (induction xs rule: printed.induct) simp_all

lemma written_append: "written (xs @ ys) = written xs @ written ys"
  by (induction xs rule: written.induct) simp_all

lemma writeResultsHtml_events:
  assumes "writeResultsHtml E result i url folderName = (failure, evs)"
  shows "opened evs = [] \<and> audited evs = [] \<and> printed evs = []
         \<and> \<not> list_ex isClose evs \<and> \<not> list_ex isMkdir evs"
  using assms
  by (auto simp: writeResultsHtml_def split: sum.splits option.splits)

text \<open>What the loop does when it runs to its end.\<close>

lemma auditPages_done:
  "auditPages E cfg folderName i urls = (None, pages, evs) \<Longrightarrow>
     opened evs = pages \<and> length pages = length urls \<and> audited evs = urls
       \<and> \<not> list_ex isClose evs"
proof (induction urls arbitrary: i pages evs)
  case Nil
  then show ?case by simp
next
  case (Cons url rest)
  from Cons.prems obtain page result out where
    page: "newPage E i = Inr page" and
    result: "pa11y E url page cfg = Inr result" and
    out: "(if isHtml cfg then writeResultsHtml E result i url folderName
                else (None, [Stdout (reporterJson E result)]))
               = (None, out)"
    by (auto split: sum.splits option.splits prod.splits)
  obtain failure pages' evs' where
    rest: "auditPages E cfg folderName (Suc i) rest = (failure, pages', evs')"
    by (cases "auditPages E cfg folderName (Suc i) rest") auto
  from Cons.prems page result out rest have
    eq: "failure = None" "pages = page # pages'"
        "evs = [BarIncrement, NewPage page, Pa11y url page] @ out @ evs'"
    by simp_all
  from out have w: "opened out = [] \<and> audited out = [] \<and> \<not> list_ex isClose out"
    using writeResultsHtml_events [of E result i url folderName None out]
    by (cases "isHtml cfg") auto
  from Cons.IH [of "Suc i" pages' evs'] rest eq(1) have
    ih: "opened evs' = pages' \<and> length pages' = length rest \<and> audited evs' = rest
           \<and> \<not> list_ex isClose evs'"
    by simp
  from eq w ih show ?case
    by (simp add: opened_append audited_append)
qed

lemma closePages_done: "closePages E pages = (None, evs) \<Longrightarrow> evs = map PageClose pages"
proof (induction pages arbitrary: evs)
  case Nil
  then show ?case by simp
next
  case (Cons page pages)
  then show ?case
    by (auto split: option.splits prod.splits)
qed

text \<open>
  C9. When \<open>runPa11y\<close> ends with no error caught, its events are, in this order: the
  work on the pages, in which every URL of the list is audited and one page is opened
  for each, and in which nothing is closed; then the closing of every page that was
  opened, in the order of opening; then the end of the progress bar and, last, the
  closing of the browser.
\<close>

theorem runPa11y_closes_all:
  assumes "runPa11y E cfg folderName urlList = (None, evs)"
  shows "\<exists>work. evs = work @ map PageClose (opened work) @ [BarStop, BrowserClose]
           \<and> \<not> list_ex isClose work
           \<and> length (opened work) = length urlList
           \<and> audited work = urlList"
proof -
  let ?found = "ok (''Found '' @ decimal (length urlList) @ '' pages, starting to process them...'')"
  from assms obtain body where
    body: "tryBlock E cfg folderName urlList = (None, body)" and evs: "evs = ?found # body"
    by (auto simp: runPa11y_def split: prod.splits option.splits)
  from body obtain pages audits closed where
    audits: "auditPages E cfg folderName 0 urlList = (None, pages, audits)" and
    closed: "closePages E pages = (None, closed)" and
    body_eq: "body = [Launch, BarStart (length urlList)] @ audits @ closed @ [BarStop, BrowserClose]"
    by (auto simp: tryBlock_def split: prod.splits option.splits)
  let ?work = "?found # [Launch, BarStart (length urlList)] @ audits"
  from auditPages_done [OF audits] have
    a: "opened audits = pages" "length pages = length urlList" "audited audits = urlList"
       "\<not> list_ex isClose audits"
    by simp_all
  from closePages_done [OF closed] have c: "closed = map PageClose pages" .
  have "evs = ?work @ map PageClose (opened ?work) @ [BarStop, BrowserClose]"
    using evs body_eq a(1) c by (simp add: ok_def)
  moreover have "\<not> list_ex isClose ?work"
    using a(4) by (simp add: ok_def)
  moreover have "length (opened ?work) = length urlList"
    using a(1,2) by (simp add: ok_def)
  moreover have "audited ?work = urlList"
    using a(3) by (simp add: ok_def)
  ultimately show ?thesis by blast
qed

theorem runPa11y_closes_all_witness:
  "fst (runPa11y world defaultConfig ''examplecom''
          [JStr ''https://www.example.com/'', JStr ''https://www.example.com/about'']) = None
   \<and> (\<exists>work. snd (runPa11y world defaultConfig ''examplecom''
          [JStr ''https://www.example.com/'', JStr ''https://www.example.com/about''])
        = work @ map PageClose (opened work) @ [BarStop, BrowserClose]
       \<and> \<not> list_ex isClose work
       \<and> length (opened work)
           = length [JStr ''https://www.example.com/'', JStr ''https://www.example.com/about'']
       \<and> audited work = [JStr ''https://www.example.com/'', JStr ''https://www.example.com/about''])"
proof -
  let ?urls = "[JStr ''https://www.example.com/'', JStr ''https://www.example.com/about'']"
  have f: "fst (runPa11y world defaultConfig ''examplecom'' ?urls) = None"
    by code_simp
  then have r: "runPa11y world defaultConfig ''examplecom'' ?urls
      = (None, snd (runPa11y world defaultConfig ''examplecom'' ?urls))"
    by (simp add: prod_eq_iff)
  from runPa11y_closes_all [OF r] f show ?thesis
    by blast
qed

text \<open>
  What \<open>runPa11y\<close> never does, however it ends: it makes no directory, and with a
  reporter other than \<open>html\<close> it writes no file. And what it prints: with a reporter
  other than \<open>html\<close>, its first message and then one line for each page it audited, the
  text of the JSON reporter.
\<close>

lemma auditPages_events:
  "auditPages E cfg folderName i urls = (failure, pages, evs) \<Longrightarrow>
     \<not> list_ex isMkdir evs
     \<and> (\<not> isHtml cfg \<longrightarrow> written evs = [] \<and> length (printed evs) = length (audited evs))"
proof (induction urls arbitrary: i failure pages evs)
  case Nil
  then show ?case by simp
next
  case (Cons url rest)
  show ?case
  proof (cases "newPage E i")
    case (Inl e)
    with Cons.prems show ?thesis by auto
  next
    case page: (Inr page)
    show ?thesis
    proof (cases "pa11y E url page cfg")
      case (Inl e)
      with Cons.prems page show ?thesis by auto
    next
      case result: (Inr result)
      obtain wf out where
        w: "(if isHtml cfg then writeResultsHtml E result i url folderName
                else (None, [Stdout (reporterJson E result)])) = (wf, out)"
        by (cases "if isHtml cfg then writeResultsHtml E result i url folderName
                   else (None, [Stdout (reporterJson E result)])")
      then have wp: "\<not> list_ex isMkdir out \<and> audited out = []
                       \<and> (\<not> isHtml cfg \<longrightarrow> written out = [] \<and> length (printed out) = 1)"
        using writeResultsHtml_events [of E result i url folderName wf out]
        by (cases "isHtml cfg") auto
      show ?thesis
      proof (cases wf)
        case (Some e)
        with Cons.prems page result w wp show ?thesis
          by (auto simp: printed_append written_append audited_append)
      next
        case None
        obtain f' p' e' where
          r: "auditPages E cfg folderName (Suc i) rest = (f', p', e')"
          by (cases "auditPages E cfg folderName (Suc i) rest") auto
        from Cons.IH [OF r] have
          "\<not> list_ex isMkdir e'
           \<and> (\<not> isHtml cfg \<longrightarrow> written e' = [] \<and> length (printed e') = length (audited e'))" .
        with Cons.prems page result w wp None r show ?thesis
          by (auto simp: printed_append written_append audited_append)
      qed
    qed
  qed
qed

lemma closePages_events:
  "closePages E pages = (failure, evs) \<Longrightarrow>
     \<not> list_ex isMkdir evs \<and> printed evs = [] \<and> written evs = [] \<and> audited evs = []"
proof (induction pages arbitrary: failure evs)
  case Nil
  then show ?case by simp
next
  case (Cons page pages)
  then show ?case
    by (auto split: option.splits prod.splits)
qed

lemma tryBlock_events:
  assumes "tryBlock E cfg folderName urlList = (failure, evs)"
  shows "\<not> list_ex isMkdir evs
         \<and> (\<not> isHtml cfg \<longrightarrow> written evs = [] \<and> length (printed evs) = length (audited evs))"
proof (cases "launch E")
  case (Some e)
  with assms show ?thesis by (simp add: tryBlock_def)
next
  case None
  obtain af pages audits where
    a: "auditPages E cfg folderName 0 urlList = (af, pages, audits)"
    by (cases "auditPages E cfg folderName 0 urlList") auto
  obtain cf closed where c: "closePages E pages = (cf, closed)"
    by (cases "closePages E pages") auto
  from auditPages_events [OF a] closePages_events [OF c] assms None a c
  show ?thesis
    by (auto simp: tryBlock_def printed_append written_append audited_append
             split: option.splits)
qed

lemma runPa11y_no_mkdir: "\<not> list_ex isMkdir (snd (runPa11y E cfg folderName urlList))"
proof -
  obtain failure evs where t: "tryBlock E cfg folderName urlList = (failure, evs)"
    by (cases "tryBlock E cfg folderName urlList") auto
  from tryBlock_events [OF t] t show ?thesis
    by (auto simp: runPa11y_def ok_def split: option.splits)
qed

lemma runPa11y_console:
  assumes "\<not> isHtml cfg"
  shows "written (snd (runPa11y E cfg folderName urlList)) = []
         \<and> length (printed (snd (runPa11y E cfg folderName urlList)))
             = Suc (length (audited (snd (runPa11y E cfg folderName urlList))))"
proof -
  obtain failure evs where t: "tryBlock E cfg folderName urlList = (failure, evs)"
    by (cases "tryBlock E cfg folderName urlList") auto
  from tryBlock_events [OF t] t assms show ?thesis
    by (auto simp: runPa11y_def ok_def printed_append written_append audited_append
             split: option.splits)
qed

text \<open>The cli reporter has no part in a run, and neither has \<open>--reporter\<close>.\<close>

lemma writeResultsHtml_reporterCli:
  "writeResultsHtml (E\<lparr>reporterCli := f\<rparr>) result i url folderName
     = writeResultsHtml E result i url folderName"
  by (simp add: writeResultsHtml_def outputDir_def cong: sum.case_cong option.case_cong)

lemma auditPages_reporterCli:
  "auditPages (E\<lparr>reporterCli := f\<rparr>) cfg folderName i urls = auditPages E cfg folderName i urls"
  by (induction urls arbitrary: i)
     (simp_all add: writeResultsHtml_reporterCli
        cong: sum.case_cong option.case_cong prod.case_cong if_cong)

lemma closePages_reporterCli: "closePages (E\<lparr>reporterCli := f\<rparr>) pages = closePages E pages"
  by (induction pages) (simp_all cong: option.case_cong prod.case_cong)

lemma runPa11y_reporterCli:
  "runPa11y (E\<lparr>reporterCli := f\<rparr>) cfg folderName urlList = runPa11y E cfg folderName urlList"
  by (simp add: runPa11y_def tryBlock_def auditPages_reporterCli closePages_reporterCli
        cong: option.case_cong prod.case_cong)

lemma config_reporter: "config searchedFor (os\<lparr>reporter := r\<rparr>) = config searchedFor os"
  by (cases searchedFor) (simp_all add: config_def loadedConfig_def)

lemma resolveConfig_reporter:
  "resolveConfig searchedFor (os\<lparr>reporter := r\<rparr>) = resolveConfig searchedFor os"
  unfolding resolveConfig_def config_reporter by simp

lemma www_example_com_console_task:
  "sitemapTask world consoleConfig [] ''https://www.example.com/sitemap.xml''
     = \<lparr>settled = Fulfilled,
        events =
          [Stdout ''(*) Starting to process sitemap: https://www.example.com/sitemap.xml'',
           HttpGet ''https://www.example.com/sitemap.xml'',
           Stdout ''(*) Found 2 pages, starting to process them...'',
           Launch, BarStart 2,
           BarIncrement, NewPage 0, Pa11y (JStr ''https://www.example.com/'') 0, Stdout ''[]'',
           BarIncrement, NewPage 1, Pa11y (JStr ''https://www.example.com/about'') 1, Stdout ''[]'',
           PageClose 0, PageClose 1, BarStop, BrowserClose],
        dirs = []\<rparr>"
  by code_simp

text \<open>
  C4. With the reporter \<open>console\<close>, the task of \<open>www.example.com\<close> audits both pages of
  the sitemap, makes no directory and writes no file, and prints one line for each
  page. The line is the text of the JSON reporter, the JSON array of the issues of the
  page (\<open>[]\<close>, when the text of the cli reporter is \<open>No issues found!\<close>): the cli
  reporter, the one that formats a result for people to read, is not called, and no run
  depends on what it would answer. (At this place the second program prints the text
  of the cli reporter with \<open>console.log\<close>; the first imports that reporter and does not
  use it.) Nor does a run depend on the value of \<open>--reporter\<close>: \<open>opts.reporter\<close> is read
  nowhere, and the reporter is the one of the configuration.
\<close>

theorem console_reporter_prints_json:
  "runPa11y (E\<lparr>reporterCli := f\<rparr>) cfg folderName urlList = runPa11y E cfg folderName urlList
   \<and> main E (os\<lparr>reporter := r\<rparr>) existing = main E os existing
   \<and> reporterJson world result = ''[]''
   \<and> reporterCli world result = ''No issues found!''
   \<and> sitemapTask world consoleConfig [] ''https://www.example.com/sitemap.xml''
     = \<lparr>settled = Fulfilled,
        events =
          [Stdout ''(*) Starting to process sitemap: https://www.example.com/sitemap.xml'',
           HttpGet ''https://www.example.com/sitemap.xml'',
           Stdout ''(*) Found 2 pages, starting to process them...'',
           Launch, BarStart 2,
           BarIncrement, NewPage 0, Pa11y (JStr ''https://www.example.com/'') 0, Stdout ''[]'',
           BarIncrement, NewPage 1, Pa11y (JStr ''https://www.example.com/about'') 1, Stdout ''[]'',
           PageClose 0, PageClose 1, BarStop, BrowserClose],
        dirs = []\<rparr>"
proof -
  have "main E (os\<lparr>reporter := r\<rparr>) existing = main E os existing"
    by (simp add: main_def resolveConfig_reporter)
  moreover have "reporterJson world result = ''[]''"
    by (simp add: world_def)
  moreover have "reporterCli world result = ''No issues found!''"
    by (simp add: world_def)
  ultimately show ?thesis
    using runPa11y_reporterCli www_example_com_console_task by simp
qed

subsection \<open>The task of one sitemap\<close>

text \<open>
  C10. With the reporter \<open>html\<close>, when the URL of the sitemap parses and the directory of
  the sitemap exists already or can be made, the directory exists when the task has
  run, whatever \<open>getUrls\<close> answers (an error, no URL, or some), and the task makes it, if
  it has to, before it sends the request for the sitemap. With any other reporter the
  task leaves the directories as they are and never calls \<open>mkdirSync\<close>.
\<close>

theorem output_directory_before_fetch:
  "(isHtml cfg \<and> urlHostname E url = Inr hostname
      \<and> (pathResolve E [outputDir E, folderNameOf hostname] \<in> set existing
          \<or> mkdirSync E (pathResolve E [outputDir E, folderNameOf hostname]) = None)
    \<longrightarrow> pathResolve E [outputDir E, folderNameOf hostname]
          \<in> set (dirs (sitemapTask E cfg existing url))
        \<and> (\<exists>rest. events (sitemapTask E cfg existing url)
              = ok (''Starting to process sitemap: '' @ url)
                # (if pathResolve E [outputDir E, folderNameOf hostname] \<in> set existing then []
                   else [MkdirSync (pathResolve E [outputDir E, folderNameOf hostname])])
                @ HttpGet url # rest))
   \<and> (\<not> isHtml cfg
    \<longrightarrow> dirs (sitemapTask E cfg existing url) = existing
        \<and> \<not> list_ex isMkdir (events (sitemapTask E cfg existing url)))"
proof (intro conjI impI)
  assume h: "isHtml cfg \<and> urlHostname E url = Inr hostname
      \<and> (pathResolve E [outputDir E, folderNameOf hostname] \<in> set existing
          \<or> mkdirSync E (pathResolve E [outputDir E, folderNameOf hostname]) = None)"
  let ?dir = "pathResolve E [outputDir E, folderNameOf hostname]"
  from h have e: "ensureDir E cfg existing ?dir
      = Inr (if ?dir \<in> set existing then [] else [MkdirSync ?dir],
             if ?dir \<in> set existing then existing else ?dir # existing)"
    by (auto simp: ensureDir_def)
  from h e show "?dir \<in> set (dirs (sitemapTask E cfg existing url))"
    by (cases "getUrls E url") (simp_all add: sitemapTask_def)
  from h e show "\<exists>rest. events (sitemapTask E cfg existing url)
              = ok (''Starting to process sitemap: '' @ url)
                # (if ?dir \<in> set existing then [] else [MkdirSync ?dir]) @ HttpGet url # rest"
    by (cases "getUrls E url") (simp_all add: sitemapTask_def)
next
  assume h: "\<not> isHtml cfg"
  then have e: "ensureDir E cfg existing dir = Inr ([], existing)" for dir
    by (simp add: ensureDir_def)
  from e show "dirs (sitemapTask E cfg existing url) = existing"
    by (simp add: sitemapTask_def split: sum.splits)
  from e runPa11y_no_mkdir [of E cfg] show "\<not> list_ex isMkdir (events (sitemapTask E cfg existing url))"
    by (simp add: sitemapTask_def ok_def split: sum.splits)
qed

theorem output_directory_before_fetch_witness:
  "isHtml defaultConfig
   \<and> urlHostname world ''https://down.example.org/sitemap.xml'' = Inr ''down.example.org''
   \<and> mkdirSync world ''/home/user/site/output/downexample.org'' = None
   \<and> settled (sitemapTask world defaultConfig [] ''https://down.example.org/sitemap.xml'')
       = Rejected (Failure ''getaddrinfo ENOTFOUND down.example.org'')
   \<and> ''/home/user/site/output/downexample.org''
       \<in> set (dirs (sitemapTask world defaultConfig [] ''https://down.example.org/sitemap.xml''))
   \<and> \<not> isHtml consoleConfig
   \<and> dirs (sitemapTask world consoleConfig [] ''https://down.example.org/sitemap.xml'') = []"
proof -
  have h: "isHtml defaultConfig" by code_simp
  have u: "urlHostname world ''https://down.example.org/sitemap.xml'' = Inr ''down.example.org''"
    by code_simp
  have d: "pathResolve world [outputDir world, folderNameOf ''down.example.org'']
             = ''/home/user/site/output/downexample.org''"
    by code_simp
  have m: "mkdirSync world ''/home/user/site/output/downexample.org'' = None"
    by (simp add: world_def)
  have s: "settled (sitemapTask world defaultConfig [] ''https://down.example.org/sitemap.xml'')
       = Rejected (Failure ''getaddrinfo ENOTFOUND down.example.org'')"
    by code_simp
  have c: "\<not> isHtml consoleConfig" by code_simp
  from output_directory_before_fetch
         [of defaultConfig world "''https://down.example.org/sitemap.xml''" "''down.example.org''" "[]"]
       h u d m
  have "''/home/user/site/output/downexample.org''
       \<in> set (dirs (sitemapTask world defaultConfig [] ''https://down.example.org/sitemap.xml''))"
    by simp
  moreover from output_directory_before_fetch
         [of consoleConfig world "''https://down.example.org/sitemap.xml''" "''down.example.org''" "[]"] c
  have "dirs (sitemapTask world consoleConfig [] ''https://down.example.org/sitemap.xml'') = []"
    by simp
  ultimately show ?thesis using h u m s c by simp
qed

text \<open>
  An error of \<open>getUrls\<close>, in any environment: the promise of the callback is rejected
  with it, and the events of the task end with the request. No line is printed for the
  error.
\<close>

lemma getUrls_error_rejects:
  assumes "urlHostname E url = Inr hostname"
    and "ensureDir E cfg existing (pathResolve E [outputDir E, folderNameOf hostname])
           = Inr (made, existing')"
    and "getUrls E url = Inl e"
  shows "sitemapTask E cfg existing url
           = \<lparr>settled = Rejected e,
              events = ok (''Starting to process sitemap: '' @ url) # made @ [HttpGet url],
              dirs = existing'\<rparr>"
  using assms by (simp add: sitemapTask_def)

text \<open>
  C1. The host of the sitemap \<open>https://down.example.org/sitemap.xml\<close> cannot be reached,
  and \<open>fetch\<close> rejects. The task makes the directory, sends the request, and ends with the
  promise of the callback rejected with the error of \<open>fetch\<close>: nothing catches the error,
  and the task prints no line about it, on standard error or elsewhere. (The one
  \<open>catch\<close> of the script is inside \<open>runPa11y\<close>, which this task never reaches.)
\<close>

theorem fetch_error_rejects_task:
  "sitemapTask world defaultConfig [] ''https://down.example.org/sitemap.xml''
     = \<lparr>settled = Rejected (Failure ''getaddrinfo ENOTFOUND down.example.org''),
        events =
          [Stdout ''(*) Starting to process sitemap: https://down.example.org/sitemap.xml'',
           MkdirSync ''/home/user/site/output/downexample.org'',
           HttpGet ''https://down.example.org/sitemap.xml''],
        dirs = [''/home/user/site/output/downexample.org'']\<rparr>"
  by code_simp

end
